theory Spec2Isabelle
  imports Main "HOL-Library.Word" "HOL-Library.Multiset"
begin

section \<open>kh-summary/summary.py: a bank export turned into a balance chart\<close>

text \<open>
  The script reads a tab-separated bank export, repairs its header line, loads it with
  pandas, checks the currency, orders the transactions by posting date, spreads the
  transactions of one day over synthetic hours, accumulates the balance and renders a
  chart. The embedding follows the three functions of the source that carry this logic,
  \<open>fix_header_line\<close>, \<open>read_and_process_csv\<close> and \<open>main\<close>. The file system and the
  console are an explicit state; an exception is a value of type \<open>exn\<close>; the calls into
  pandas and plotly whose code is not part of the repository are parameters, collected
  in the record \<open>libs\<close>.
\<close>

subsection \<open>Text, files and console\<close>

text \<open>
  A Python \<open>str\<close> read from a file is a sequence of Unicode code points, which is what
  \<open>str.isspace\<close> looks at. File contents are kept as the text layer presents them, after
  decoding and newline translation. Paths and the cells of the table are byte strings
  (UTF-8), on which only equality and concatenation are used.
\<close>

type_synonym pystr = "nat list"
type_synonym path = string

datatype exn =
    FileNotFoundError
  | IndexError
  | ParserError
  | ValueError

datatype message =
    PrintColumns
  | PrintFirstColumn
  | NonHufFound nat
  | NonHufRow "string option" "64 word" string
  | ErrorReadingCsv exn
  | Usage
  | Processed nat
  | DateRange int int
  | FinalBalance int
  | BalanceRange int int
  | ChartSaved
  | OpeningBrowser
  | CouldNotOpenBrowser
  | Traceback exn

record world =
  files :: "path \<rightharpoonup> pystr"
  console :: "message list"

definition say :: "message \<Rightarrow> world \<Rightarrow> world" where
  "say m w = w\<lparr>console := console w @ [m]\<rparr>"

definition tab :: nat where
  "tab = 9"

definition newline :: nat where
  "newline = 10"

text \<open>
  \<open>str.isspace\<close> on one character: the code points that CPython's Unicode database
  classifies as whitespace (general category Zs, or bidirectional class WS, B or S).
\<close>

definition isspace :: "nat \<Rightarrow> bool" where
  "isspace c \<longleftrightarrow>
     (9 \<le> c \<and> c \<le> 13) \<or> (28 \<le> c \<and> c \<le> 32) \<or> c = 133 \<or> c = 160 \<or> c = 5760 \<or>
     (8192 \<le> c \<and> c \<le> 8202) \<or> c = 8232 \<or> c = 8233 \<or> c = 8239 \<or> c = 8287 \<or>
     c = 12288"

text \<open>
  \<open>f.readlines()\<close>: the text cut after every newline; each line keeps its newline, and
  a last line without one is kept as it is.
\<close>

fun readlines :: "pystr \<Rightarrow> pystr list" where
  "readlines [] = []"
| "readlines (c # cs) =
     (if c = newline then [c] # readlines cs
      else (case readlines cs of [] \<Rightarrow> [[c]] | l # ls \<Rightarrow> (c # l) # ls))"

text \<open>\<open>f.writelines(lines)\<close> writes the strings one after the other, adding nothing.\<close>

definition writelines :: "pystr list \<Rightarrow> pystr" where
  "writelines lines = concat lines"

subsection \<open>The header sanitizer\<close>

text \<open>
  \<open>fix_header_line\<close> (lines 22 to 38). Opening a missing file raises; \<open>lines[0]\<close> on a
  file without any line raises \<open>IndexError\<close>, before the copy is opened for writing.
\<close>

definition fix_header_line :: "path \<Rightarrow> world \<Rightarrow> exn + (path \<times> world)" where
  "fix_header_line file_path w =
     (case files w file_path of
        None \<Rightarrow> Inl FileNotFoundError
      | Some content \<Rightarrow>
          (case readlines content of
             [] \<Rightarrow> Inl IndexError
           | header_line # rest \<Rightarrow>
               (let fixed_header = filter (\<lambda>char. char = tab \<or> \<not> isspace char) header_line;
                    temp_file = file_path @ ''_fixed.csv''
                in Inr (temp_file,
                        w\<lparr>files := (files w)(temp_file \<mapsto> writelines (fixed_header # rest))\<rparr>))))"

subsection \<open>The table\<close>

text \<open>
  One line of the DataFrame that \<open>pd.read_csv\<close> returns, with the six columns the script
  uses, named after their headers without the accents (posting date, amount, currency of
  the amount, transaction type, counterparty name, memo). A missing cell (NaN) of a text
  column is \<open>None\<close>: the posting date, the counterparty and the memo may be missing. The
  amount column is taken at the dtype int64, which is what \<open>read_csv\<close> infers when every
  amount field is a whole number in the int64 range; its addition wraps. Where an amount
  field is missing, fractional or not a number, pandas makes the column float64 or
  object and line 74 adds floating-point numbers or concatenates texts: such columns are
  outside this embedding. A line of the file whose every field is empty is a row with
  every cell missing: \<open>None\<close> in the table.
\<close>

record row =
  konyveles_datuma :: "string option"
  osszeg :: "64 word"
  osszeg_devizaneme :: string
  tipus :: string
  partner_elnevezese :: "string option"
  kozlemeny :: "string option"

type_synonym table = "row option list"

text \<open>
  A line of the returned DataFrame: the columns of the export and the three columns the
  script adds. A timestamp counts hours since the epoch (every value the script builds
  is a whole number of hours); \<open>None\<close> is NaT, the timestamp of a line without a posting
  date.
\<close>

record processed =
  source :: row
  date :: "int option"
  balance :: "64 word"
  description :: "string option"

text \<open>
  The library calls. \<open>read_csv\<close> is \<open>pd.read_csv(_, sep='\\t', encoding='utf-8',
  skipinitialspace=True)\<close> on the text of a file. \<open>to_datetime\<close> is
  \<open>pd.to_datetime(_, format='%Y.%m.%d')\<close> on one cell: the day number of the date (days
  since the epoch), or the exception it raises. \<open>sort_values\<close> is
  \<open>DataFrame.sort_values('date')\<close> on the lines of the frame, each paired with its
  \<open>date\<close>; the call passes no \<open>kind\<close>, so pandas sorts with its default algorithm.
  \<open>to_html\<close> is the chart that plotly renders and \<open>webbrowser_open\<close> tells whether
  \<open>webbrowser.open\<close> returned without raising.
\<close>

record libs =
  read_csv :: "pystr \<Rightarrow> exn + table"
  to_datetime :: "string \<Rightarrow> exn + int"
  sort_values :: "(int option \<times> row) list \<Rightarrow> (int option \<times> row) list"
  to_html :: "processed list \<Rightarrow> pystr"
  webbrowser_open :: "path \<Rightarrow> bool"

text \<open>
  The order of \<open>sort_values\<close> on a date column, with the default \<open>ascending=True\<close> and
  \<open>na_position='last'\<close>: earlier dates first, NaT after every date.
\<close>

definition date_le :: "int option \<Rightarrow> int option \<Rightarrow> bool" where
  "date_le a b =
     (case b of None \<Rightarrow> True | Some y \<Rightarrow> (case a of None \<Rightarrow> False | Some x \<Rightarrow> x \<le> y))"

text \<open>
  What pandas documents for \<open>sort_values\<close> with the default \<open>kind='quicksort'\<close>: the
  lines come back rearranged, in that order of the key. Only \<open>kind='mergesort'\<close> and
  \<open>kind='stable'\<close> are documented to keep the order of equal keys.
\<close>

definition sorts_by_date ::
  "((int option \<times> row) list \<Rightarrow> (int option \<times> row) list) \<Rightarrow> bool" where
  "sorts_by_date srt \<longleftrightarrow>
     (\<forall>xs. mset (srt xs) = mset xs \<and> sorted_wrt date_le (map fst (srt xs)))"

subsection \<open>The loader\<close>

text \<open>The transaction type that line 63 drops, in UTF-8 (the accented letters take two bytes).\<close>

definition artifact :: string where
  "artifact = ''Sz'' @ [CHR 0xC3, CHR 0xA1] @ ''mlamegsz'' @ [CHR 0xC3, CHR 0xBC] @ ''ntet'' @
     [CHR 0xC3, CHR 0xA9] @ ''s '' @ [CHR 0xC3, CHR 0xA1] @ ''tvezet'' @ [CHR 0xC3, CHR 0xA9] @
     ''ssel''"

text \<open>\<open>df.dropna(how='all')\<close>: the rows with every cell missing go.\<close>

fun dropna_all :: "table \<Rightarrow> row list" where
  "dropna_all [] = []"
| "dropna_all (None # t) = dropna_all t"
| "dropna_all (Some r # t) = r # dropna_all t"

text \<open>
  Line 61: every cell of the date column is converted. A missing cell becomes NaT and
  nothing is raised for it; a text is parsed, a failure raising for the whole column. A
  parsed date is the timestamp of its midnight.
\<close>

fun to_datetime_col ::
  "(string \<Rightarrow> exn + int) \<Rightarrow> string option list \<Rightarrow> exn + int option list" where
  "to_datetime_col f [] = Inr []"
| "to_datetime_col f (None # cs) =
     (case to_datetime_col f cs of Inl e \<Rightarrow> Inl e | Inr ts \<Rightarrow> Inr (None # ts))"
| "to_datetime_col f (Some c # cs) =
     (case f c of
        Inl e \<Rightarrow> Inl e
      | Inr d \<Rightarrow>
          (case to_datetime_col f cs of Inl e \<Rightarrow> Inl e | Inr ts \<Rightarrow> Inr (Some (24 * d) # ts)))"

text \<open>\<open>.dt.date\<close>: the calendar day of a timestamp.\<close>

definition dt_date :: "int \<Rightarrow> int" where
  "dt_date t = t div 24"

text \<open>
  Lines 70 to 72: the lines are grouped by the calendar day of \<open>date\<close>, and the k-th line
  of a group, counted from 0 in the order of the frame, gets k hours added. \<open>groupby\<close>
  leaves the lines whose key is NaT out of every group, and \<open>transform\<close> gives them NaT.
  \<open>seen\<close> holds the days of the dated lines already passed.
\<close>

fun add_hours :: "int list \<Rightarrow> (int option \<times> row) list \<Rightarrow> (int option \<times> row) list" where
  "add_hours seen [] = []"
| "add_hours seen ((None, r) # rest) = (None, r) # add_hours seen rest"
| "add_hours seen ((Some t, r) # rest) =
     (Some (t + int (count_list seen (dt_date t))), r) # add_hours (dt_date t # seen) rest"

text \<open>Line 74: \<open>cumsum\<close> on an int64 column; the additions wrap modulo \<open>2 ^ 64\<close>.\<close>

fun cumsum_from :: "64 word \<Rightarrow> 64 word list \<Rightarrow> 64 word list" where
  "cumsum_from acc [] = []"
| "cumsum_from acc (x # xs) = (acc + x) # cumsum_from (acc + x) xs"

definition cumsum :: "64 word list \<Rightarrow> 64 word list" where
  "cumsum xs = cumsum_from 0 xs"

text \<open>Lines 75 to 77: \<open>fillna\<close> on one cell.\<close>

definition fillna :: "'a option \<Rightarrow> 'a option \<Rightarrow> 'a option" where
  "fillna cell other = (case cell of None \<Rightarrow> other | Some v \<Rightarrow> Some v)"

definition with_balance :: "(int option \<times> row) list \<Rightarrow> processed list" where
  "with_balance df =
     map (\<lambda>((t, r), b).
            \<lparr>source = r, date = t, balance = b,
             description = fillna (partner_elnevezese r) (fillna (kozlemeny r) (Some ''No Description''))\<rparr>)
         (zip df (cumsum (map (osszeg \<circ> snd) df)))"

text \<open>
  Lines 48 to 78 of \<open>read_and_process_csv\<close>, on the table that \<open>read_csv\<close> returned. The
  result is the DataFrame, or \<open>None\<close>.
\<close>

definition process_frame :: "libs \<Rightarrow> table \<Rightarrow> world \<Rightarrow> processed list option \<times> world" where
  "process_frame L tbl w =
     (let df = dropna_all tbl;
          w1 = say PrintFirstColumn (say PrintColumns w);
          non_huf = filter (\<lambda>r. osszeg_devizaneme r \<noteq> ''HUF'') df
      in if non_huf \<noteq> [] then
           (None,
            fold (\<lambda>r. say (NonHufRow (konyveles_datuma r) (osszeg r) (osszeg_devizaneme r)))
              non_huf (say (NonHufFound (length non_huf)) w1))
         else
           (case to_datetime_col (to_datetime L) (map konyveles_datuma df) of
              Inl e \<Rightarrow> (None, say (ErrorReadingCsv e) w1)
            | Inr dates \<Rightarrow>
                (let df1 = zip dates df;
                     df2 = filter (\<lambda>(t, r). tipus r \<noteq> artifact) df1;
                     df3 = sort_values L df2;
                     df4 = add_hours [] df3
                 in (Some (with_balance df4), w1))))"

text \<open>Lines 43 to 45: the header is repaired and the copy is read.\<close>

definition load_table :: "libs \<Rightarrow> path \<Rightarrow> world \<Rightarrow> (exn + table) \<times> world" where
  "load_table L csv_file_path w =
     (case fix_header_line csv_file_path w of
        Inl e \<Rightarrow> (Inl e, w)
      | Inr (fixed_file, w1) \<Rightarrow>
          (case files w1 fixed_file of
             None \<Rightarrow> (Inl FileNotFoundError, w1)
           | Some content \<Rightarrow> (read_csv L content, w1)))"

text \<open>\<open>read_and_process_csv\<close> (lines 40 to 82): any exception is caught and printed.\<close>

definition read_and_process_csv :: "libs \<Rightarrow> path \<Rightarrow> world \<Rightarrow> processed list option \<times> world" where
  "read_and_process_csv L csv_file_path w =
     (case load_table L csv_file_path w of
        (Inl e, w1) \<Rightarrow> (None, say (ErrorReadingCsv e) w1)
      | (Inr tbl, w1) \<Rightarrow> process_frame L tbl w1)"

subsection \<open>The program\<close>

definition output_file :: path where
  "output_file = ''bank_balance_chart.html''"

text \<open>The timestamps of a frame that are not NaT, in the order of the frame.\<close>

definition dated :: "processed list \<Rightarrow> int list" where
  "dated df = List.map_filter date df"

text \<open>
  \<open>main\<close> (lines 241 to 284), returning the exit status. \<open>df['date'].min()\<close> skips
  NaT; on a frame without any dated line it is NaT and its \<open>strftime\<close> raises at line
  253. \<open>create_plotly_chart\<close> formats the date of every line at line 93, which raises on
  a line whose date is NaT. Neither exception is caught: the interpreter prints the
  traceback and exits with status 1.
\<close>

definition main :: "libs \<Rightarrow> string list \<Rightarrow> world \<Rightarrow> nat \<times> world" where
  "main L argv w =
     (if length argv \<noteq> 2 then (1, say Usage w)
      else
        (case read_and_process_csv L (argv ! 1) w of
           (None, w1) \<Rightarrow> (1, w1)
         | (Some df, w1) \<Rightarrow>
             (let w2 = say (Processed (length df)) w1
              in if dated df = [] then (1, say (Traceback ValueError) w2)
                 else
                   (let w3 = say (DateRange (dt_date (Min (set (dated df))))
                                            (dt_date (Max (set (dated df))))) w2;
                        w4 = say (FinalBalance (sint (balance (last df)))) w3;
                        w5 = say (BalanceRange (Min (set (map (sint \<circ> balance) df)))
                                               (Max (set (map (sint \<circ> balance) df)))) w4
                    in if None \<in> set (map date df) then (1, say (Traceback ValueError) w5)
                       else
                         (let w6 = w5\<lparr>files := (files w5)(output_file \<mapsto> to_html L df)\<rparr>;
                              w7 = say ChartSaved w6
                          in (0, say (if webbrowser_open L output_file then OpeningBrowser
                                      else CouldNotOpenBrowser) w7))))))"

subsection \<open>A reference instance of the library calls\<close>

text \<open>
  The format \<open>%Y.%m.%d\<close> on one cell: four digits, a month of one or two digits and a
  day of one or two digits, separated by dots, naming a day of the proleptic Gregorian
  calendar. The result is the day number. The range of \<open>datetime64[ns]\<close> (years 1677 to
  2262) is not part of this instance; the theorems below hold for every \<open>to_datetime\<close>.
\<close>

definition digit :: "char \<Rightarrow> bool" where
  "digit c \<longleftrightarrow> c \<in> set ''0123456789''"

definition number :: "string \<Rightarrow> int" where
  "number s = foldl (\<lambda>n c. 10 * n + (of_char c - 48)) 0 s"

fun split_on :: "char \<Rightarrow> string \<Rightarrow> string list" where
  "split_on sep [] = [[]]"
| "split_on sep (c # cs) =
     (if c = sep then [] # split_on sep cs
      else (case split_on sep cs of [] \<Rightarrow> [[c]] | p # ps \<Rightarrow> (c # p) # ps))"

definition is_leap :: "int \<Rightarrow> bool" where
  "is_leap y \<longleftrightarrow> y mod 4 = 0 \<and> (y mod 100 \<noteq> 0 \<or> y mod 400 = 0)"

definition days_in_month :: "int \<Rightarrow> int \<Rightarrow> int" where
  "days_in_month y m =
     (if m = 2 then (if is_leap y then 29 else 28)
      else if m = 4 \<or> m = 6 \<or> m = 9 \<or> m = 11 then 30 else 31)"

definition days_from_civil :: "int \<Rightarrow> int \<Rightarrow> int \<Rightarrow> int" where
  "days_from_civil y m d =
     (let y1 = (if m \<le> 2 then y - 1 else y);
          era = y1 div 400;
          yoe = y1 - era * 400;
          doy = (153 * ((m + 9) mod 12) + 2) div 5 + d - 1;
          doe = yoe * 365 + yoe div 4 - yoe div 100 + doy
      in era * 146097 + doe - 719468)"

definition strptime_Ymd :: "string \<Rightarrow> exn + int" where
  "strptime_Ymd s =
     (case split_on CHR ''.'' s of
        [ys, ms, ds0] \<Rightarrow>
          (let ds = (case ds0 of [sp, c] \<Rightarrow> (if sp = CHR '' '' then [c] else ds0) | _ \<Rightarrow> ds0);
               y = number ys; m = number ms; d = number ds
           in if length ys = 4 \<and> list_all digit ys \<and>
                 (length ms = 1 \<or> length ms = 2) \<and> list_all digit ms \<and> 1 \<le> m \<and> m \<le> 12 \<and>
                 (length ds = 1 \<or> length ds = 2) \<and> list_all digit ds \<and> 1 \<le> d \<and>
                 d \<le> days_in_month y m \<and> 1 \<le> y
              then Inr (days_from_civil y m d) else Inl ValueError)
      | _ \<Rightarrow> Inl ValueError)"

text \<open>
  A sort that does what \<open>sort_values\<close> documents, for the examples: insertion sort in
  the order of the dates.
\<close>

fun insert_by_date ::
  "(int option \<times> row) \<Rightarrow> (int option \<times> row) list \<Rightarrow> (int option \<times> row) list" where
  "insert_by_date x [] = [x]"
| "insert_by_date x (y # ys) =
     (if date_le (fst x) (fst y) then x # y # ys else y # insert_by_date x ys)"

definition stable_sort :: "(int option \<times> row) list \<Rightarrow> (int option \<times> row) list" where
  "stable_sort df = foldr insert_by_date df []"

text \<open>
  The instance used in the examples: a reader that raises on an empty file and returns
  the given table otherwise, the date format above, the given sort, an empty chart, and
  a browser that opens.
\<close>

definition example_libs ::
  "table \<Rightarrow> ((int option \<times> row) list \<Rightarrow> (int option \<times> row) list) \<Rightarrow> libs" where
  "example_libs tbl srt =
     \<lparr>read_csv = (\<lambda>content. if content = [] then Inl ParserError else Inr tbl),
      to_datetime = strptime_Ymd,
      sort_values = srt,
      to_html = (\<lambda>df. []),
      webbrowser_open = (\<lambda>p. True)\<rparr>"

subsection \<open>Words used in the statements\<close>

text \<open>
  The day that the posting date of a line of the frame parses to; \<open>None\<close> for a line
  without a posting date.
\<close>

definition posting_day :: "libs \<Rightarrow> processed \<Rightarrow> (exn + int) option" where
  "posting_day L p = map_option (to_datetime L) (konyveles_datuma (source p))"

text \<open>How many lines before line \<open>i\<close> of the frame have the posting day of line \<open>i\<close>.\<close>

definition same_day_before :: "libs \<Rightarrow> processed list \<Rightarrow> nat \<Rightarrow> nat" where
  "same_day_before L df i =
     length (filter (\<lambda>p. posting_day L p = posting_day L (df ! i)) (take i df))"

text \<open>The records that line 63 keeps.\<close>

definition included :: "table \<Rightarrow> row list" where
  "included tbl = filter (\<lambda>r. tipus r \<noteq> artifact) (dropna_all tbl)"

text \<open>The records that line 54 selects.\<close>

definition non_huf_rows :: "table \<Rightarrow> row list" where
  "non_huf_rows tbl = filter (\<lambda>r. osszeg_devizaneme r \<noteq> ''HUF'') (dropna_all tbl)"

definition report :: "row \<Rightarrow> message" where
  "report r = NonHufRow (konyveles_datuma r) (osszeg r) (osszeg_devizaneme r)"

text \<open>A table with the amounts of the merge records replaced.\<close>

definition with_merge_amounts :: "(row \<Rightarrow> 64 word) \<Rightarrow> table \<Rightarrow> table" where
  "with_merge_amounts f tbl =
     map (map_option (\<lambda>r. if tipus r = artifact then r\<lparr>osszeg := f r\<rparr> else r)) tbl"

text \<open>
  The columns of a result, empty when the load failed; of the timestamps, those that are
  not NaT.
\<close>

definition timestamps :: "processed list option \<Rightarrow> int list" where
  "timestamps res = (case res of None \<Rightarrow> [] | Some df \<Rightarrow> dated df)"


subsection \<open>Example inputs\<close>

text \<open>
  An export of two lines, "a b<TAB>c" and "1<TAB>2", each ended by a newline, and a file
  without any line.
\<close>

definition export_text :: pystr where
  "export_text = [97, 32, 98, 9, 99, 10, 49, 9, 50, 10]"

definition example_world :: world where
  "example_world = \<lparr>files = [''export.csv'' \<mapsto> export_text], console = []\<rparr>"

definition loaded_world :: world where
  "loaded_world =
     \<lparr>files = [''export.csv'' \<mapsto> export_text,
               ''export.csv_fixed.csv'' \<mapsto> [97, 98, 9, 99, 49, 9, 50, 10]],
      console = []\<rparr>"


definition row_salary :: row where
  "row_salary = \<lparr>konyveles_datuma = Some ''2014.08.01'', osszeg = 1000, osszeg_devizaneme = ''HUF'',
     tipus = ''Atutalas'', partner_elnevezese = Some ''Employer'', kozlemeny = Some ''August''\<rparr>"

definition row_shop :: row where
  "row_shop = \<lparr>konyveles_datuma = Some ''2014.08.01'', osszeg = - 300, osszeg_devizaneme = ''HUF'',
     tipus = ''Vasarlas'', partner_elnevezese = None, kozlemeny = Some ''groceries''\<rparr>"

definition row_interest :: row where
  "row_interest = \<lparr>konyveles_datuma = Some ''2014.08.02'', osszeg = 50, osszeg_devizaneme = ''HUF'',
     tipus = ''Kamat'', partner_elnevezese = None, kozlemeny = None\<rparr>"

definition row_merge :: row where
  "row_merge = \<lparr>konyveles_datuma = Some ''2014.08.01'', osszeg = 999, osszeg_devizaneme = ''HUF'',
     tipus = artifact, partner_elnevezese = None, kozlemeny = None\<rparr>"

definition row_euro_merge :: row where
  "row_euro_merge = \<lparr>konyveles_datuma = Some ''yesterday'', osszeg = 5, osszeg_devizaneme = ''EUR'',
     tipus = artifact, partner_elnevezese = None, kozlemeny = None\<rparr>"

definition example_table :: table where
  "example_table = [Some row_interest, Some row_salary, None, Some row_merge, Some row_shop]"

definition example_frame :: "processed list" where
  "example_frame =
     [\<lparr>source = row_salary, date = Some 390792, balance = 1000, description = Some ''Employer''\<rparr>,
      \<lparr>source = row_shop, date = Some 390793, balance = 700, description = Some ''groceries''\<rparr>,
      \<lparr>source = row_interest, date = Some 390816, balance = 750,
       description = Some ''No Description''\<rparr>]"

definition euro_table :: table where
  "euro_table = [Some row_salary, Some row_euro_merge, Some row_shop]"


definition row_large :: row where
  "row_large = \<lparr>konyveles_datuma = Some ''2014.08.01'', osszeg = 9223372036854775807,
     osszeg_devizaneme = ''HUF'', tipus = ''Atutalas'', partner_elnevezese = None,
     kozlemeny = None\<rparr>"

definition row_one :: row where
  "row_one = \<lparr>konyveles_datuma = Some ''2014.08.02'', osszeg = 1, osszeg_devizaneme = ''HUF'',
     tipus = ''Kamat'', partner_elnevezese = None, kozlemeny = None\<rparr>"


definition row_undated :: row where
  "row_undated = \<lparr>konyveles_datuma = None, osszeg = 20, osszeg_devizaneme = ''HUF'',
     tipus = ''Kamat'', partner_elnevezese = None, kozlemeny = None\<rparr>"

definition undated_table :: table where
  "undated_table = [Some row_undated, Some row_salary]"

definition merge_only_table :: table where
  "merge_only_table = [Some row_merge]"

definition busy_day_table :: table where
  "busy_day_table = replicate 25 (Some row_shop) @ [Some row_interest]"

section \<open>Facts about the model\<close>

lemma read_and_process_csv_loaded:
  "load_table L p w = (Inr tbl, w1) \<Longrightarrow> read_and_process_csv L p w = process_frame L tbl w1"
  by (simp add: read_and_process_csv_def)

lemma read_and_process_csv_Some:
  "read_and_process_csv L p w = (Some df, w') \<Longrightarrow>
     \<exists>tbl w1. load_table L p w = (Inr tbl, w1) \<and> process_frame L tbl w1 = (Some df, w')"
  by (auto simp: read_and_process_csv_def split: prod.splits sum.splits)

lemma process_frame_Some:
  assumes "process_frame L tbl w = (Some df, w')"
  shows "\<exists>dates. non_huf_rows tbl = [] \<and>
           to_datetime_col (to_datetime L) (map konyveles_datuma (dropna_all tbl)) = Inr dates \<and>
           df = with_balance (add_hours [] (sort_values L
                  (filter (\<lambda>(t, r). tipus r \<noteq> artifact) (zip dates (dropna_all tbl)))))"
  using assms
  by (auto simp: process_frame_def non_huf_rows_def Let_def split: if_splits sum.splits)

lemma length_cumsum_from: "length (cumsum_from a xs) = length xs"
  by (induction xs arbitrary: a) auto

lemma cumsum_from_nth:
  "i < length xs \<Longrightarrow> cumsum_from a xs ! i = a + sum_list (take (Suc i) xs)"
proof (induction xs arbitrary: a i)
  case Nil
  then show ?case by simp
next
  case (Cons x xs)
  then show ?case by (cases i) (simp_all add: add.assoc)
qed

lemma length_add_hours: "length (add_hours seen df) = length df"
  by (induction seen df rule: add_hours.induct) auto

lemma map_snd_add_hours: "map snd (add_hours seen df) = map snd df"
  by (induction seen df rule: add_hours.induct) auto

lemma length_with_balance: "length (with_balance df) = length df"
  by (simp add: with_balance_def cumsum_def length_cumsum_from)

lemma with_balance_nth:
  assumes "i < length df"
  shows "source (with_balance df ! i) = snd (df ! i)"
    and "date (with_balance df ! i) = fst (df ! i)"
    and "balance (with_balance df ! i) = sum_list (take (Suc i) (map (osszeg \<circ> snd) df))"
    and "description (with_balance df ! i) =
           fillna (partner_elnevezese (snd (df ! i)))
             (fillna (kozlemeny (snd (df ! i))) (Some ''No Description''))"
  using assms
  by (simp_all add: with_balance_def cumsum_def length_cumsum_from cumsum_from_nth
        split: prod.splits)

lemma map_source_with_balance: "map source (with_balance df) = map snd df"
  by (rule nth_equalityI) (simp_all add: length_with_balance with_balance_nth)

lemma map_date_with_balance: "map date (with_balance df) = map fst df"
  by (rule nth_equalityI) (simp_all add: length_with_balance with_balance_nth)

lemma to_datetime_col_length:
  "to_datetime_col f cs = Inr ts \<Longrightarrow> length ts = length cs"
  by (induction f cs arbitrary: ts rule: to_datetime_col.induct) (auto split: sum.splits)

lemma to_datetime_col_zip:
  "to_datetime_col f (map g rows) = Inr ts \<Longrightarrow> (t, r) \<in> set (zip ts rows) \<Longrightarrow>
     (g r = None \<and> t = None) \<or> (\<exists>c d. g r = Some c \<and> f c = Inr d \<and> t = Some (24 * d))"
proof (induction rows arbitrary: ts)
  case Nil
  then show ?case by simp
next
  case (Cons a rows)
  then show ?case
    by (cases "g a") (auto split: sum.splits)
qed

lemma map_snd_filter_zip:
  "length ts = length rows \<Longrightarrow>
     map snd (filter (\<lambda>(t, r). P r) (zip ts rows)) = filter P rows"
  by (induction ts rows rule: list_induct2) auto

lemma sorts_by_date_mset: "sorts_by_date srt \<Longrightarrow> mset (srt xs) = mset xs"
  by (simp add: sorts_by_date_def)

lemma sorts_by_date_sorted: "sorts_by_date srt \<Longrightarrow> sorted_wrt date_le (map fst (srt xs))"
  by (simp add: sorts_by_date_def)

lemma frame_sources:
  assumes "process_frame L tbl w = (Some df, w')" and "sorts_by_date (sort_values L)"
  shows "mset (map source df) = mset (included tbl)"
proof -
  from process_frame_Some [OF assms(1)] obtain dates where
    d: "to_datetime_col (to_datetime L) (map konyveles_datuma (dropna_all tbl)) = Inr dates" and
    df: "df = with_balance (add_hours [] (sort_values L
                  (filter (\<lambda>(t, r). tipus r \<noteq> artifact) (zip dates (dropna_all tbl)))))"
    by blast
  let ?kept = "filter (\<lambda>(t, r). tipus r \<noteq> artifact) (zip dates (dropna_all tbl))"
  have len: "length dates = length (dropna_all tbl)"
    using to_datetime_col_length [OF d] by simp
  have "map source df = map snd (sort_values L ?kept)"
    by (simp add: df map_source_with_balance map_snd_add_hours)
  then have "mset (map source df) = image_mset snd (mset (sort_values L ?kept))"
    by simp
  also have "\<dots> = image_mset snd (mset ?kept)"
    by (simp add: sorts_by_date_mset [OF assms(2)])
  also have "\<dots> = mset (map snd ?kept)"
    by simp
  also have "\<dots> = mset (included tbl)"
    by (simp only: map_snd_filter_zip [OF len] included_def)
  finally show ?thesis .
qed


lemma concat_readlines: "concat (readlines t) = t"
  by (induction t) (auto split: list.splits)

lemma readlines_Nil_iff: "readlines t = [] \<longleftrightarrow> t = []"
  by (cases t) (auto split: list.splits)

lemma date_le_total: "date_le a b \<or> date_le b a"
  by (auto simp: date_le_def split: option.splits)

lemma date_le_trans: "date_le a b \<Longrightarrow> date_le b c \<Longrightarrow> date_le a c"
  by (auto simp: date_le_def split: option.splits)

lemma date_le_None: "date_le None b \<longleftrightarrow> b = None"
  by (auto simp: date_le_def split: option.splits)

lemma date_le_Some: "date_le (Some x) (Some y) \<longleftrightarrow> x \<le> y"
  by (simp add: date_le_def)

lemma mset_insert_by_date: "mset (insert_by_date x ys) = add_mset x (mset ys)"
  by (induction ys) auto

lemma set_insert_by_date: "set (insert_by_date x ys) = insert x (set ys)"
  by (induction ys) auto

lemma sorted_insert_by_date:
  "sorted_wrt date_le (map fst ys) \<Longrightarrow> sorted_wrt date_le (map fst (insert_by_date x ys))"
proof (induction ys)
  case Nil
  then show ?case by simp
next
  case (Cons y ys)
  show ?case
  proof (cases "date_le (fst x) (fst y)")
    case True
    with Cons.prems show ?thesis
      by (auto intro: date_le_trans)
  next
    case False
    with date_le_total [of "fst x" "fst y"] have "date_le (fst y) (fst x)" by blast
    with False Cons show ?thesis
      by (auto simp: set_insert_by_date)
  qed
qed

lemma sorts_by_date_stable_sort: "sorts_by_date stable_sort"
proof -
  have "mset (foldr insert_by_date xs []) = mset xs \<and>
        sorted_wrt date_le (map fst (foldr insert_by_date xs []))" for xs
    by (induction xs) (simp_all add: mset_insert_by_date sorted_insert_by_date)
  then show ?thesis
    by (simp add: sorts_by_date_def stable_sort_def)
qed

lemma sort_values_example_libs: "sort_values (example_libs tbl srt) = srt"
  by (simp add: example_libs_def)

lemma example_load:
  "load_table (example_libs tbl srt) ''export.csv'' example_world = (Inr tbl, loaded_world)"
  by (simp add: load_table_def fix_header_line_def example_libs_def example_world_def
        loaded_world_def export_text_def writelines_def tab_def newline_def isspace_def Let_def)

lemma strptime_Ymd_aug1: "strptime_Ymd ''2014.08.01'' = Inr 16283"
  by (simp add: strptime_Ymd_def number_def digit_def days_in_month_def days_from_civil_def
        is_leap_def)

lemma strptime_Ymd_aug2: "strptime_Ymd ''2014.08.02'' = Inr 16284"
  by (simp add: strptime_Ymd_def number_def digit_def days_in_month_def days_from_civil_def
        is_leap_def)

lemma strptime_Ymd_yesterday: "strptime_Ymd ''yesterday'' = Inl ValueError"
  by (simp add: strptime_Ymd_def)

lemma artifact_neq:
  "''Atutalas'' \<noteq> artifact" "''Vasarlas'' \<noteq> artifact" "''Kamat'' \<noteq> artifact"
  by (simp_all add: artifact_def)

lemmas example_eval =
  process_frame_def example_libs_def row_salary_def row_shop_def row_interest_def
  row_merge_def row_large_def row_one_def row_undated_def artifact_neq strptime_Ymd_aug1
  strptime_Ymd_aug2 stable_sort_def date_le_def with_balance_def cumsum_def fillna_def
  dt_date_def Let_def

lemma example_process:
  "process_frame (example_libs example_table stable_sort) example_table w =
     (Some example_frame, say PrintFirstColumn (say PrintColumns w))"
  by (simp add: example_eval example_table_def example_frame_def)


lemma example_run:
  "read_and_process_csv (example_libs example_table stable_sort) ''export.csv'' example_world =
     (Some example_frame, say PrintFirstColumn (say PrintColumns loaded_world))"
  by (simp add: read_and_process_csv_loaded [OF example_load] example_process)


lemma add_hours_nth:
  "i < length s \<Longrightarrow>
     add_hours seen s ! i =
       (case fst (s ! i) of
          None \<Rightarrow> None
        | Some t \<Rightarrow>
            Some (t + int (count_list seen (dt_date t) +
                           count_list (map (map_option dt_date \<circ> fst) (take i s))
                             (Some (dt_date t)))),
        snd (s ! i))"
proof (induction seen s arbitrary: i rule: add_hours.induct)
  case (1 seen)
  then show ?case by simp
next
  case (2 seen r rest)
  show ?case
  proof (cases i)
    case 0
    then show ?thesis by simp
  next
    case (Suc j)
    with "2.prems" have "j < length rest" by simp
    from "2.IH" [OF this] show ?thesis
      by (simp add: Suc split: option.splits)
  qed
next
  case (3 seen t r rest)
  show ?case
  proof (cases i)
    case 0
    then show ?thesis by simp
  next
    case (Suc j)
    with "3.prems" have "j < length rest" by simp
    from "3.IH" [OF this] show ?thesis
      by (simp add: Suc split: option.splits)
  qed
qed

lemma count_list_map_eq: "count_list (map f xs) c = length (filter (\<lambda>x. f x = c) xs)"
  by (induction xs) auto

lemma count_list_map_inj: "inj f \<Longrightarrow> count_list (map f xs) (f x) = count_list xs x"
  by (induction xs) (auto dest: injD)

lemma inj_map_option_Inr: "inj (map_option Inr)"
  by (intro option.inj_map) simp

lemma count_list_take_less:
  assumes "i < j" and "j \<le> length xs" and "xs ! i = d"
  shows "count_list (take i xs) d < count_list (take j xs) d"
proof -
  from assms have i: "i < length xs" by simp
  have "take j xs = take (i + (j - i)) xs"
    using assms(1) by simp
  also have "\<dots> = take i xs @ take (j - i) (drop i xs)"
    by (rule take_add)
  also have "drop i xs = xs ! i # drop (Suc i) xs"
    using i by (simp add: Cons_nth_drop_Suc)
  also have "take (j - i) (xs ! i # drop (Suc i) xs) = xs ! i # take (j - i - 1) (drop (Suc i) xs)"
    using assms(1) by (cases "j - i") simp_all
  finally show ?thesis
    using assms(3) by simp
qed

lemma date_le_map_dt_date:
  "date_le a b \<Longrightarrow> date_le (map_option dt_date a) (map_option dt_date b)"
  by (auto simp: date_le_def dt_date_def zdiv_mono1 split: option.splits)

lemma frame_days:
  assumes "process_frame L tbl w = (Some df, w')" and "sorts_by_date (sort_values L)"
  obtains days where "length days = length df" and "sorted_wrt date_le days"
    and "map (posting_day L) df = map (map_option Inr) days"
    and "\<And>i. i < length df \<Longrightarrow>
           date (df ! i) =
             (case days ! i of
                None \<Rightarrow> None
              | Some d \<Rightarrow> Some (24 * d + int (count_list (take i days) (Some d))))"
proof -
  from process_frame_Some [OF assms(1)] obtain dates where
    d: "to_datetime_col (to_datetime L) (map konyveles_datuma (dropna_all tbl)) = Inr dates" and
    df: "df = with_balance (add_hours [] (sort_values L
                  (filter (\<lambda>(t, r). tipus r \<noteq> artifact) (zip dates (dropna_all tbl)))))"
    by blast
  define kept where "kept = filter (\<lambda>(t, r). tipus r \<noteq> artifact) (zip dates (dropna_all tbl))"
  define s where "s = sort_values L kept"
  define days where "days = map (map_option dt_date \<circ> fst) s"
  have df_s: "df = with_balance (add_hours [] s)"
    by (simp add: df s_def kept_def)
  have len: "length s = length df"
    by (simp add: df_s length_with_balance length_add_hours)
  have "mset s = mset kept"
    unfolding s_def by (rule sorts_by_date_mset [OF assms(2)])
  then have "set s = set kept"
    by (rule mset_eq_setD)
  then have "set s \<subseteq> set (zip dates (dropna_all tbl))"
    by (auto simp: kept_def)
  then have parsed:
    "(konyveles_datuma (snd x) = None \<and> fst x = None) \<or>
     (\<exists>c d. konyveles_datuma (snd x) = Some c \<and> to_datetime L c = Inr d \<and> fst x = Some (24 * d))"
    if "x \<in> set s" for x
    using to_datetime_col_zip [OF d, of "fst x" "snd x"] that by auto
  have day1: "map_option (to_datetime L) (konyveles_datuma (snd x)) =
              map_option Inr (map_option dt_date (fst x))" if "x \<in> set s" for x
    using parsed [OF that] by (auto simp: dt_date_def)
  have day2: "24 * dt_date t = t" if "x \<in> set s" "fst x = Some t" for x t
    using parsed [OF that(1)] that(2) by (auto simp: dt_date_def)
  have 1: "length days = length df"
    by (simp add: days_def len)
  have "sorted_wrt date_le (map fst s)"
    unfolding s_def by (rule sorts_by_date_sorted [OF assms(2)])
  then have "sorted_wrt (\<lambda>x y. date_le (fst x) (fst y)) s"
    by (simp add: sorted_wrt_map)
  then have "sorted_wrt (\<lambda>x y. date_le (map_option dt_date (fst x)) (map_option dt_date (fst y))) s"
    by (rule sorted_wrt_mono_rel [rotated]) (simp add: date_le_map_dt_date)
  then have 2: "sorted_wrt date_le days"
    by (simp add: days_def sorted_wrt_map)
  have src: "map source df = map snd s"
    by (simp add: df_s map_source_with_balance map_snd_add_hours)
  have "map (posting_day L) df =
        map (\<lambda>r. map_option (to_datetime L) (konyveles_datuma r)) (map source df)"
    by (simp add: posting_day_def comp_def)
  also have "\<dots> = map (\<lambda>x. map_option (to_datetime L) (konyveles_datuma (snd x))) s"
    by (simp only: src map_map comp_def)
  also have "\<dots> = map (map_option Inr) days"
    by (simp add: days_def day1)
  finally have 3: "map (posting_day L) df = map (map_option Inr) days" .
  have 4: "date (df ! i) =
             (case days ! i of
                None \<Rightarrow> None
              | Some d \<Rightarrow> Some (24 * d + int (count_list (take i days) (Some d))))"
    if "i < length df" for i
  proof -
    from that len have i: "i < length s" by simp
    have di: "days ! i = map_option dt_date (fst (s ! i))"
      using i by (simp add: days_def)
    have dt: "date (df ! i) = fst (add_hours [] s ! i)"
      using i by (simp add: df_s with_balance_nth length_add_hours)
    show ?thesis
    proof (cases "fst (s ! i)")
      case None
      then show ?thesis
        using i by (simp add: dt di add_hours_nth)
    next
      case (Some t)
      have "24 * dt_date t = t"
        using day2 [of "s ! i" t] i Some by simp
      then show ?thesis
        using i Some by (simp add: dt di add_hours_nth days_def take_map)
    qed
  qed
  from 1 2 3 4 show ?thesis by (rule that)
qed

lemma same_day_before_days:
  assumes "map (posting_day L) df = map (map_option Inr) days" and "i < length df"
  shows "same_day_before L df i = count_list (take i days) (days ! i)"
proof -
  from assms(1) have len: "length days = length df"
    by (metis length_map)
  have pi: "posting_day L (df ! i) = map_option Inr (days ! i)"
    using assms len by (metis nth_map)
  have "same_day_before L df i =
          count_list (map (posting_day L) (take i df)) (posting_day L (df ! i))"
    by (simp add: same_day_before_def count_list_map_eq)
  also have "map (posting_day L) (take i df) = map (map_option Inr) (take i days)"
    by (simp only: take_map [symmetric] assms(1))
  finally show ?thesis
    by (simp only: pi count_list_map_inj [OF inj_map_option_Inr])
qed

lemma in_set_map_filter:
  "b \<in> set (List.map_filter f xs) \<longleftrightarrow> (\<exists>y\<in>set xs. f y = Some b)"
  by (induction xs) (auto split: option.splits)

lemma sorted_wrt_map_filter:
  assumes "\<And>i j a b. i < j \<Longrightarrow> j < length xs \<Longrightarrow> f (xs ! i) = Some a \<Longrightarrow>
             f (xs ! j) = Some b \<Longrightarrow> a < b"
  shows "sorted_wrt (<) (List.map_filter f xs)"
  using assms
proof (induction xs)
  case Nil
  then show ?case by simp
next
  case (Cons x xs)
  have tl: "sorted_wrt (<) (List.map_filter f xs)"
  proof (rule Cons.IH)
    fix i j a b
    assume "i < j" "j < length xs" "f (xs ! i) = Some a" "f (xs ! j) = Some b"
    then show "a < b"
      using Cons.prems [of "Suc i" "Suc j" a b] by simp
  qed
  show ?case
  proof (cases "f x")
    case None
    with tl show ?thesis by simp
  next
    case (Some a)
    have "a < b" if "b \<in> set (List.map_filter f xs)" for b
    proof -
      from that obtain y where "y \<in> set xs" "f y = Some b"
        by (auto simp: in_set_map_filter)
      then obtain k where "k < length xs" "xs ! k = y"
        by (auto simp: in_set_conv_nth)
      with Cons.prems [of 0 "Suc k" a b] Some \<open>f y = Some b\<close> show ?thesis by simp
    qed
    with tl Some show ?thesis by simp
  qed
qed


text \<open>
  The order of the frame, for any sort that does what pandas documents: the lines are
  the included records rearranged, and of two dated lines the earlier in the frame has
  the earlier or the same posting date. The order of lines with equal dates is whatever
  the sort makes it.
\<close>

lemma frame_in_date_order:
  assumes "process_frame L tbl w = (Some df, w')" and "sorts_by_date (sort_values L)"
  shows "mset (map source df) = mset (included tbl) \<and>
         (\<forall>i j d e. i < j \<and> j < length df \<and> posting_day L (df ! i) = Some (Inr d) \<and>
            posting_day L (df ! j) = Some (Inr e) \<longrightarrow> d \<le> e)"
proof -
  from frame_days [OF assms] obtain days where
    len: "length days = length df" and srt: "sorted_wrt date_le days" and
    pd: "map (posting_day L) df = map (map_option Inr) days"
    by blast
  have "d \<le> e"
    if "i < j" "j < length df" "posting_day L (df ! i) = Some (Inr d)"
      "posting_day L (df ! j) = Some (Inr e)" for i j d e
  proof -
    from that have i: "i < length df" by simp
    have "posting_day L (df ! i) = map_option Inr (days ! i)"
      "posting_day L (df ! j) = map_option Inr (days ! j)"
      using pd i that(2) len by (metis nth_map)+
    with that(3,4) have "days ! i = Some d" "days ! j = Some e"
      by auto
    moreover have "date_le (days ! i) (days ! j)"
      using srt that(1,2) len by (simp add: sorted_wrt_iff_nth_less)
    ultimately show ?thesis by (simp add: date_le_Some)
  qed
  with frame_sources [OF assms] show ?thesis by blast
qed

lemma files_say: "files (say m w) = files w"
  by (simp add: say_def)

lemma console_say: "console (say m w) = console w @ [m]"
  by (simp add: say_def)

lemma fold_say:
  "fold (\<lambda>r. say (h r)) rs w = w\<lparr>console := console w @ map h rs\<rparr>"
  by (induction rs arbitrary: w) (simp_all add: say_def)

lemma process_frame_non_huf:
  assumes "non_huf_rows tbl \<noteq> []"
  shows "process_frame L tbl w =
           (None, w\<lparr>console := console w @
              [PrintColumns, PrintFirstColumn, NonHufFound (length (non_huf_rows tbl))] @
              map report (non_huf_rows tbl)\<rparr>)"
proof -
  have "(\<lambda>r. say (NonHufRow (konyveles_datuma r) (osszeg r) (osszeg_devizaneme r))) =
        (\<lambda>r. say (report r))"
    by (simp add: report_def)
  then show ?thesis
    using assms
    by (simp add: process_frame_def non_huf_rows_def [symmetric] Let_def fold_say say_def)
qed


lemma dropna_all_with_merge_amounts:
  "dropna_all (with_merge_amounts f tbl) =
     map (\<lambda>r. if tipus r = artifact then r\<lparr>osszeg := f r\<rparr> else r) (dropna_all tbl)"
  by (induction tbl rule: dropna_all.induct) (simp_all add: with_merge_amounts_def)

lemma filter_zip_reamount:
  "filter (\<lambda>(t, r). tipus r \<noteq> artifact)
     (zip ts (map (\<lambda>r. if tipus r = artifact then r\<lparr>osszeg := f r\<rparr> else r) rows)) =
   filter (\<lambda>(t, r). tipus r \<noteq> artifact) (zip ts rows)"
proof (induction rows arbitrary: ts)
  case Nil
  then show ?case by simp
next
  case (Cons r rows)
  then show ?case by (cases ts) simp_all
qed

lemma process_frame_with_merge_amounts:
  "fst (process_frame L (with_merge_amounts f tbl) w) = fst (process_frame L tbl w)"
proof -
  let ?g = "\<lambda>r. if tipus r = artifact then r\<lparr>osszeg := f r\<rparr> else r"
  have cur: "(\<lambda>r. osszeg_devizaneme (?g r) \<noteq> ''HUF'') = (\<lambda>r. osszeg_devizaneme r \<noteq> ''HUF'')"
    by auto
  have dat: "map konyveles_datuma (map ?g rows) = map konyveles_datuma rows" for rows
    by simp
  have huf: "filter (\<lambda>r. osszeg_devizaneme r \<noteq> ''HUF'') (map ?g rows) = [] \<longleftrightarrow>
             filter (\<lambda>r. osszeg_devizaneme r \<noteq> ''HUF'') rows = []" for rows
    by (simp add: filter_map comp_def cur)
  show ?thesis
    unfolding process_frame_def dropna_all_with_merge_amounts Let_def huf dat filter_zip_reamount
    by (simp split: sum.splits)
qed

lemma fixed_path_neq_output: "p @ ''_fixed.csv'' \<noteq> output_file"
proof
  assume "p @ ''_fixed.csv'' = output_file"
  then have "last (p @ ''_fixed.csv'') = last output_file" by simp
  then show False by (simp add: output_file_def)
qed

lemma fix_header_line_Inr:
  assumes "fix_header_line p w = Inr (q, w1)"
  shows "q = p @ ''_fixed.csv'' \<and> console w1 = console w \<and>
         (\<exists>c. files w1 = (files w)(p @ ''_fixed.csv'' \<mapsto> c))"
  using assms
  by (auto simp: fix_header_line_def Let_def split: option.splits list.splits)

lemma load_table_world:
  assumes "load_table L p w = (res, w1)"
  shows "console w1 = console w \<and> files w1 output_file = files w output_file"
proof (cases "fix_header_line p w")
  case (Inl e)
  with assms show ?thesis by (simp add: load_table_def)
next
  case (Inr a)
  obtain q w2 where a: "a = (q, w2)" by (cases a)
  from fix_header_line_Inr [OF Inr [unfolded a]] obtain c where
    "console w2 = console w" "files w2 = (files w)(p @ ''_fixed.csv'' \<mapsto> c)"
    by blast
  moreover have "w1 = w2"
    using assms Inr a by (auto simp: load_table_def split: option.splits)
  ultimately show ?thesis
    using fixed_path_neq_output [of p] by simp
qed

lemma load_table_to_datetime: "load_table (L\<lparr>to_datetime := f\<rparr>) p w = load_table L p w"
  by (simp add: load_table_def split: sum.splits prod.splits option.splits)

lemma readlines_tail:
  "readlines t = h # ls \<Longrightarrow> h \<noteq> [] \<and> readlines (concat ls) = ls"
proof (induction t arbitrary: h ls)
  case Nil
  then show ?case by simp
next
  case (Cons c cs)
  show ?case
  proof (cases "c = newline")
    case True
    with Cons.prems show ?thesis by (auto simp: concat_readlines)
  next
    case False
    show ?thesis
    proof (cases "readlines cs")
      case Nil
      with False Cons.prems show ?thesis by auto
    next
      case (Cons l ls')
      with False Cons.prems Cons.IH [OF Cons] show ?thesis by auto
    qed
  qed
qed

lemma readlines_append:
  "newline \<notin> set a \<Longrightarrow> b \<noteq> [] \<Longrightarrow>
     readlines (a @ b) = (a @ hd (readlines b)) # tl (readlines b)"
proof (induction a)
  case Nil
  then show ?case by (cases "readlines b") (simp_all add: readlines_Nil_iff)
next
  case (Cons c a)
  then show ?case by simp
qed

text \<open>
  Whatever the file, if it has two lines or more, the copy starts with the repaired
  header followed at once by the second line.
\<close>

lemma header_joins_second_line:
  assumes "files w p = Some content" and "readlines content = h # l # rest"
  shows "\<exists>w1. fix_header_line p w = Inr (p @ ''_fixed.csv'', w1) \<and>
           map_option readlines (files w1 (p @ ''_fixed.csv'')) =
             Some ((filter (\<lambda>char. char = tab \<or> \<not> isspace char) h @ l) # rest)"
proof -
  let ?fixed = "filter (\<lambda>char. char = tab \<or> \<not> isspace char) h"
  from readlines_tail [OF assms(2)] have ls: "readlines (concat (l # rest)) = l # rest"
    by simp
  then have ne: "concat (l # rest) \<noteq> []"
    by (metis list.distinct(1) readlines.simps(1))
  have "newline \<notin> set ?fixed"
    by (auto simp: newline_def tab_def isspace_def)
  from readlines_append [OF this ne]
  have "readlines (?fixed @ concat (l # rest)) = (?fixed @ l) # rest"
    by (simp only: ls list.sel)
  then show ?thesis
    by (simp add: fix_header_line_def assms Let_def writelines_def)
qed

lemma euro_non_huf: "non_huf_rows euro_table = [row_euro_merge]"
  by (simp add: non_huf_rows_def euro_table_def row_salary_def row_shop_def row_euro_merge_def)

text \<open>
  The exit status, case by case: 1 on a wrong argument count, 1 when the loader returns
  no frame, 1 when the frame has no dated line or has a line without a date, and 0
  otherwise.
\<close>

lemma exit_status_cases:
  "(length argv \<noteq> 2 \<longrightarrow> main L argv w = (1, say Usage w)) \<and>
   (length argv = 2 \<and> fst (read_and_process_csv L (argv ! 1) w) = None \<longrightarrow>
      main L argv w = (1, snd (read_and_process_csv L (argv ! 1) w))) \<and>
   (length argv = 2 \<and>
      (\<exists>df. fst (read_and_process_csv L (argv ! 1) w) = Some df \<and>
         (dated df = [] \<or> None \<in> set (map date df))) \<longrightarrow>
      fst (main L argv w) = 1) \<and>
   (length argv = 2 \<and>
      (\<exists>df. fst (read_and_process_csv L (argv ! 1) w) = Some df \<and>
         dated df \<noteq> [] \<and> None \<notin> set (map date df)) \<longrightarrow>
      fst (main L argv w) = 0)"
proof -
  obtain res w1 where rp: "read_and_process_csv L (argv ! 1) w = (res, w1)"
    by (cases "read_and_process_csv L (argv ! 1) w")
  have a: "main L argv w = (1, say Usage w)" if "length argv \<noteq> 2"
    using that by (simp add: main_def)
  have b: "main L argv w = (1, snd (read_and_process_csv L (argv ! 1) w))"
    if "length argv = 2" "fst (read_and_process_csv L (argv ! 1) w) = None"
  proof -
    from rp that(2) have "res = None" by simp
    with that(1) rp show ?thesis by (simp add: main_def)
  qed
  have c: "fst (main L argv w) = 1"
    if "length argv = 2" "fst (read_and_process_csv L (argv ! 1) w) = Some df"
      "dated df = [] \<or> None \<in> set (map date df)" for df
  proof -
    from rp that(2) have "res = Some df" by simp
    with that(1,3) rp show ?thesis by (auto simp: main_def Let_def)
  qed
  have d: "fst (main L argv w) = 0"
    if "length argv = 2" "fst (read_and_process_csv L (argv ! 1) w) = Some df"
      "dated df \<noteq> []" "None \<notin> set (map date df)" for df
  proof -
    from rp that(2) have "res = Some df" by simp
    with that(1,3,4) rp show ?thesis by (simp add: main_def Let_def)
  qed
  from a b c d show ?thesis by blast
qed

lemma merge_only_process:
  "process_frame (example_libs merge_only_table stable_sort) merge_only_table w =
     (Some [], say PrintFirstColumn (say PrintColumns w))"
  by (simp add: example_eval merge_only_table_def)

text \<open>
  A record without a posting date stays in the frame, after the dated ones and without a
  timestamp; the chart then fails on it.
\<close>

lemma undated_process:
  "process_frame (example_libs undated_table stable_sort) undated_table w =
     (Some [\<lparr>source = row_salary, date = Some 390792, balance = 1000,
             description = Some ''Employer''\<rparr>,
            \<lparr>source = row_undated, date = None, balance = 1020,
             description = Some ''No Description''\<rparr>],
      say PrintFirstColumn (say PrintColumns w))"
  by (simp add: example_eval undated_table_def)

lemma undated_line_exits_with_1:
  "fst (main (example_libs undated_table stable_sort) [''summary.py'', ''export.csv'']
     example_world) = 1"
  by (simp add: main_def read_and_process_csv_loaded [OF example_load] undated_process
        dated_def Let_def)

lemma busy_day_process:
  "timestamps (fst (process_frame (example_libs busy_day_table stable_sort) busy_day_table w)) =
     [390792, 390793, 390794, 390795, 390796, 390797, 390798, 390799, 390800, 390801,
      390802, 390803, 390804, 390805, 390806, 390807, 390808, 390809, 390810, 390811,
      390812, 390813, 390814, 390815, 390816, 390816]"
  by (simp add: process_frame_def busy_day_table_def example_libs_def timestamps_def
        row_shop_def row_interest_def artifact_neq strptime_Ymd_aug1 strptime_Ymd_aug2
        stable_sort_def with_balance_def cumsum_def fillna_def dt_date_def Let_def
        dated_def date_le_def numeral_eq_Suc)

lemma example_posting_days:
  "posting_day (example_libs tbl srt) (example_frame ! 0) = Some (Inr 16283)"
  "posting_day (example_libs tbl srt) (example_frame ! 1) = Some (Inr 16283)"
  "posting_day (example_libs tbl srt) (example_frame ! 2) = Some (Inr 16284)"
  by (simp_all add: posting_day_def example_libs_def example_frame_def row_salary_def
        row_shop_def row_interest_def strptime_Ymd_aug1 strptime_Ymd_aug2)

lemma example_same_day_before:
  "same_day_before (example_libs tbl srt) example_frame 0 = 0"
  "same_day_before (example_libs tbl srt) example_frame 1 = 1"
  "same_day_before (example_libs tbl srt) example_frame 2 = 0"
  by (simp_all add: same_day_before_def posting_day_def example_libs_def example_frame_def
        row_salary_def row_shop_def row_interest_def strptime_Ymd_aug1 strptime_Ymd_aug2
        numeral_2_eq_2)

lemma less_3_cases: "i < (3::nat) \<Longrightarrow> i = 0 \<or> i = 1 \<or> i = 2"
  by arith



section \<open>The claims\<close>

subsection \<open>C1: the running balance\<close>




subsection \<open>C2: a currency other than HUF\<close>

text \<open>
  C2. When the table holds at least one record whose currency is not HUF, the loader
  prints the number of such records and then one line for each of them, with its date,
  amount and currency, in the order of the table; it returns no frame; the program exits
  with status 1 and the chart file is left as it was.
\<close>

theorem currency_mismatch_fails_load:
  assumes "load_table L p w = (Inr tbl, w1)" and "non_huf_rows tbl \<noteq> []"
  shows "read_and_process_csv L p w =
           (None, w1\<lparr>console := console w1 @
              [PrintColumns, PrintFirstColumn, NonHufFound (length (non_huf_rows tbl))] @
              map report (non_huf_rows tbl)\<rparr>) \<and>
         main L [prog, p] w = (1, snd (read_and_process_csv L p w)) \<and>
         files (snd (main L [prog, p] w)) output_file = files w output_file"
proof -
  have 1: "read_and_process_csv L p w =
           (None, w1\<lparr>console := console w1 @
              [PrintColumns, PrintFirstColumn, NonHufFound (length (non_huf_rows tbl))] @
              map report (non_huf_rows tbl)\<rparr>)"
    by (simp only: read_and_process_csv_loaded [OF assms(1)] process_frame_non_huf [OF assms(2)])
  then have 2: "main L [prog, p] w = (1, snd (read_and_process_csv L p w))"
    by (simp add: main_def)
  have "files (snd (read_and_process_csv L p w)) output_file = files w output_file"
    using load_table_world [OF assms(1)] by (simp add: 1)
  with 1 2 show ?thesis by simp
qed

text \<open>The theorem of C2 at the example export.\<close>

theorem currency_mismatch_fails_load_witness:
  "load_table (example_libs euro_table stable_sort) ''export.csv'' example_world = (Inr euro_table, loaded_world) \<and>
   non_huf_rows euro_table = [row_euro_merge] \<and>
   read_and_process_csv (example_libs euro_table stable_sort) ''export.csv'' example_world =
     (None, loaded_world\<lparr>console := [PrintColumns, PrintFirstColumn, NonHufFound 1,
        NonHufRow (Some ''yesterday'') 5 ''EUR'']\<rparr>) \<and>
   fst (main (example_libs euro_table stable_sort) [''summary.py'', ''export.csv''] example_world) = 1 \<and>
   files (snd (main (example_libs euro_table stable_sort) [''summary.py'', ''export.csv''] example_world)) output_file = None"
proof -
  have h1: "load_table (example_libs euro_table stable_sort) ''export.csv'' example_world = (Inr euro_table, loaded_world)"
    by (rule example_load)
  have h2: "non_huf_rows euro_table \<noteq> []"
    by (simp add: euro_non_huf)
  have c: "console loaded_world = []" "files example_world output_file = None"
    "files loaded_world output_file = None"
    by (simp_all add: loaded_world_def example_world_def output_file_def)
  from currency_mismatch_fails_load [OF h1 h2, of "''summary.py''"] h1 show ?thesis
    by (simp add: euro_non_huf report_def row_euro_merge_def c)
qed

subsection \<open>C3: the synthetic timestamps\<close>

text \<open>
  C3 as stated fails when a date holds 25 records: on a table of 25 records of 1 August
  2014 followed by one of 2 August, the 25th record gets 24 hours added and lands on the
  midnight of 2 August, the timestamp of the record that follows it.
\<close>

theorem busy_day_timestamps_collide:
  "timestamps (fst (read_and_process_csv (example_libs busy_day_table stable_sort)
      ''export.csv'' example_world)) ! 24 = 390816 \<and>
   timestamps (fst (read_and_process_csv (example_libs busy_day_table stable_sort)
      ''export.csv'' example_world)) ! 25 = 390816 \<and>
   \<not> sorted_wrt (<) (timestamps (fst (read_and_process_csv
      (example_libs busy_day_table stable_sort) ''export.csv'' example_world)))"
  by (simp add: read_and_process_csv_loaded [OF example_load] busy_day_process)

text \<open>
  C3, as amended. When the load succeeds, a line without a posting date has no timestamp
  (NaT), and a line with a posting date carries the midnight of that date plus as many
  hours as there are lines of the same posting date before it in the sorted frame (0, 1,
  2, ... within each date, in sorted order); the lines without a timestamp come after
  all the others; and when no dated line has 24 or more lines of its date before it,
  that is, no date holds more than 24 records, the timestamps are strictly increasing
  over the whole frame.
\<close>

theorem hour_offsets_and_increasing_timestamps:
  assumes "load_table L p w = (Inr tbl, w1)"
    and "read_and_process_csv L p w = (Some df, w')"
    and "sorts_by_date (sort_values L)"
  shows "(\<forall>i<length df.
            case konyveles_datuma (source (df ! i)) of
              None \<Rightarrow> date (df ! i) = None
            | Some c \<Rightarrow>
                (\<exists>d. to_datetime L c = Inr d \<and>
                     date (df ! i) = Some (24 * d + int (same_day_before L df i)))) \<and>
         (\<forall>i j. i < j \<and> j < length df \<and> date (df ! i) = None \<longrightarrow> date (df ! j) = None) \<and>
         ((\<forall>i<length df. date (df ! i) \<noteq> None \<longrightarrow> same_day_before L df i < 24) \<longrightarrow>
            sorted_wrt (<) (timestamps (Some df)))"
proof -
  have pf: "process_frame L tbl w1 = (Some df, w')"
    using assms(1,2) by (simp add: read_and_process_csv_loaded)
  from frame_days [OF pf assms(3)] obtain days where
    len: "length days = length df" and srt: "sorted_wrt date_le days" and
    pd: "map (posting_day L) df = map (map_option Inr) days" and
    dt: "\<And>i. i < length df \<Longrightarrow>
           date (df ! i) =
             (case days ! i of
                None \<Rightarrow> None
              | Some d \<Rightarrow> Some (24 * d + int (count_list (take i days) (Some d))))"
    by blast
  have rank: "same_day_before L df i = count_list (take i days) (days ! i)"
    if "i < length df" for i
    by (rule same_day_before_days [OF pd that])
  have pday: "map_option (to_datetime L) (konyveles_datuma (source (df ! i))) =
              map_option Inr (days ! i)" if "i < length df" for i
    using pd that len by (metis nth_map posting_day_def)
  have A: "case konyveles_datuma (source (df ! i)) of
              None \<Rightarrow> date (df ! i) = None
            | Some c \<Rightarrow>
                (\<exists>d. to_datetime L c = Inr d \<and>
                     date (df ! i) = Some (24 * d + int (same_day_before L df i)))"
    if "i < length df" for i
  proof (cases "days ! i")
    case None
    with pday [OF that] dt [OF that] show ?thesis
      by (simp split: option.splits)
  next
    case (Some d)
    with pday [OF that] dt [OF that] rank [OF that] show ?thesis
      by (auto split: option.splits)
  qed
  have none_iff: "date (df ! i) = None \<longleftrightarrow> days ! i = None" if "i < length df" for i
    using dt [OF that] by (simp split: option.splits)
  have B: "date (df ! j) = None" if "i < j" "j < length df" "date (df ! i) = None" for i j
  proof -
    from that have i: "i < length df" by simp
    have "date_le (days ! i) (days ! j)"
      using srt that(1,2) len by (simp add: sorted_wrt_iff_nth_less)
    with that(3) none_iff [OF i] have "days ! j = None"
      by (simp add: date_le_None)
    then show ?thesis
      by (simp add: none_iff [OF that(2)])
  qed
  have C: "sorted_wrt (<) (timestamps (Some df))"
    if few: "\<forall>i<length df. date (df ! i) \<noteq> None \<longrightarrow> same_day_before L df i < 24"
  proof -
    have "a < b"
      if "i < j" "j < length df" "date (df ! i) = Some a" "date (df ! j) = Some b" for i j a b
    proof -
      from that have i: "i < length df" by simp
      from that(3) dt [OF i] obtain d where
        d: "days ! i = Some d" "a = 24 * d + int (count_list (take i days) (Some d))"
        by (auto split: option.splits)
      from that(4) dt [OF that(2)] obtain e where
        e: "days ! j = Some e" "b = 24 * e + int (count_list (take j days) (Some e))"
        by (auto split: option.splits)
      have "date_le (days ! i) (days ! j)"
        using srt that(1,2) len by (simp add: sorted_wrt_iff_nth_less)
      then have le: "d \<le> e"
        by (simp add: d e date_le_Some)
      show ?thesis
      proof (cases "d = e")
        case True
        have "count_list (take i days) (Some d) < count_list (take j days) (Some d)"
          using that(1,2) len d(1) by (intro count_list_take_less) simp_all
        then show ?thesis
          by (simp add: d e True)
      next
        case False
        with le have "d + 1 \<le> e" by simp
        moreover have "count_list (take i days) (Some d) < 24"
          using few [rule_format, OF i] that(3) rank [OF i] d(1) by simp
        ultimately show ?thesis
          by (simp add: d e)
      qed
    qed
    then have "sorted_wrt (<) (List.map_filter date df)"
      by (rule sorted_wrt_map_filter)
    then show ?thesis
      by (simp add: timestamps_def dated_def)
  qed
  from A B C show ?thesis by blast
qed

text \<open>The theorem of C3 at the example export.\<close>

theorem hour_offsets_and_increasing_timestamps_witness:
  "load_table (example_libs example_table stable_sort) ''export.csv'' example_world = (Inr example_table, loaded_world) \<and>
   read_and_process_csv (example_libs example_table stable_sort) ''export.csv'' example_world =
     (Some example_frame, say PrintFirstColumn (say PrintColumns loaded_world)) \<and>
   sorts_by_date (sort_values (example_libs example_table stable_sort)) \<and>
   same_day_before (example_libs example_table stable_sort) example_frame 0 < 24 \<and>
   same_day_before (example_libs example_table stable_sort) example_frame 1 < 24 \<and>
   same_day_before (example_libs example_table stable_sort) example_frame 2 < 24 \<and>
   date (example_frame ! 1) = Some (24 * 16283 + int (same_day_before (example_libs example_table stable_sort) example_frame 1)) \<and>
   sorted_wrt (<) (timestamps (Some example_frame))"
proof -
  have h1: "load_table (example_libs example_table stable_sort) ''export.csv'' example_world = (Inr example_table, loaded_world)"
    by (rule example_load)
  have h2: "read_and_process_csv (example_libs example_table stable_sort) ''export.csv'' example_world =
     (Some example_frame, say PrintFirstColumn (say PrintColumns loaded_world))"
    by (rule example_run)
  have h3: "sorts_by_date (sort_values (example_libs example_table stable_sort))"
    by (simp add: sort_values_example_libs sorts_by_date_stable_sort)
  have len: "length example_frame = 3"
    by (simp add: example_frame_def)
  have r: "same_day_before (example_libs example_table stable_sort) example_frame 0 < 24"
    "same_day_before (example_libs example_table stable_sort) example_frame 1 < 24"
    "same_day_before (example_libs example_table stable_sort) example_frame 2 < 24"
    unfolding example_same_day_before by simp_all
  have few: "\<forall>i<length example_frame.
      date (example_frame ! i) \<noteq> None \<longrightarrow> same_day_before (example_libs example_table stable_sort) example_frame i < 24"
  proof (intro allI impI)
    fix i
    assume "i < length example_frame"
    then have "i < 3"
      by (simp add: len)
    then have "i = 0 \<or> i = 1 \<or> i = 2"
      by (rule less_3_cases)
    then show "same_day_before (example_libs example_table stable_sort) example_frame i < 24"
      using r by (elim disjE) (simp_all only:)
  qed
  from hour_offsets_and_increasing_timestamps [OF h1 h2 h3] few
  have inc: "sorted_wrt (<) (timestamps (Some example_frame))" by blast
  have d: "date (example_frame ! 1) = Some 390793"
    by (simp add: example_frame_def)
  have off: "date (example_frame ! 1) =
      Some (24 * 16283 + int (same_day_before (example_libs example_table stable_sort) example_frame 1))"
    unfolding d example_same_day_before by simp
  from h1 h2 h3 r off inc show ?thesis by blast
qed

subsection \<open>C5: the merge records\<close>

text \<open>
  C5. When the load succeeds, no line of the frame has the transaction type of the merge
  records, and whatever amounts the merge records of the table carry, the returned
  frame, running balances included, is the same.
\<close>

theorem merge_records_excluded:
  assumes "load_table L p w = (Inr tbl, w1)"
    and "read_and_process_csv L p w = (Some df, w')"
    and "sorts_by_date (sort_values L)"
  shows "(\<forall>r\<in>set df. tipus (source r) \<noteq> artifact) \<and>
         (\<forall>f. fst (process_frame L (with_merge_amounts f tbl) w1) = Some df)"
proof -
  have pf: "process_frame L tbl w1 = (Some df, w')"
    using assms(1,2) by (simp add: read_and_process_csv_loaded)
  have "set (map source df) = set (included tbl)"
    using frame_sources [OF pf assms(3)] by (rule mset_eq_setD)
  then have "source r \<in> set (included tbl)" if "r \<in> set df" for r
    using that by auto
  then have 1: "\<forall>r\<in>set df. tipus (source r) \<noteq> artifact"
    by (auto simp: included_def)
  have 2: "fst (process_frame L (with_merge_amounts f tbl) w1) = Some df" for f
    by (simp add: process_frame_with_merge_amounts pf)
  from 1 2 show ?thesis by blast
qed

text \<open>The theorem of C5 at the example export.\<close>

theorem merge_records_excluded_witness:
  "load_table (example_libs example_table stable_sort) ''export.csv'' example_world = (Inr example_table, loaded_world) \<and>
   read_and_process_csv (example_libs example_table stable_sort) ''export.csv'' example_world =
     (Some example_frame, say PrintFirstColumn (say PrintColumns loaded_world)) \<and>
   sorts_by_date (sort_values (example_libs example_table stable_sort)) \<and>
   row_merge \<in> set (dropna_all example_table) \<and> tipus row_merge = artifact \<and>
   example_frame ! 0 \<in> set example_frame \<and>
   tipus (source (example_frame ! 0)) \<noteq> artifact \<and>
   fst (process_frame (example_libs example_table stable_sort) (with_merge_amounts (\<lambda>r. 0) example_table) loaded_world) =
     Some example_frame"
proof -
  have h1: "load_table (example_libs example_table stable_sort) ''export.csv'' example_world = (Inr example_table, loaded_world)"
    by (rule example_load)
  have h2: "read_and_process_csv (example_libs example_table stable_sort) ''export.csv'' example_world =
     (Some example_frame, say PrintFirstColumn (say PrintColumns loaded_world))"
    by (rule example_run)
  have h3: "sorts_by_date (sort_values (example_libs example_table stable_sort))"
    by (simp add: sort_values_example_libs sorts_by_date_stable_sort)
  have h4: "example_frame ! 0 \<in> set example_frame"
    by (simp add: example_frame_def)
  have h5: "row_merge \<in> set (dropna_all example_table) \<and> tipus row_merge = artifact"
    by (simp add: example_table_def row_merge_def)
  from merge_records_excluded [OF h1 h2 h3] h1 h2 h3 h4 h5 show ?thesis
    by blast
qed

subsection \<open>C6: the description\<close>

text \<open>
  C6. For every line of the returned frame, the description is the counterparty name
  when that cell is present, otherwise the memo when that cell is present, otherwise the
  placeholder "No Description"; it is never missing, and it is not the empty text as
  long as no present cell holds the empty text (an empty field of the file is a missing
  cell).
\<close>

theorem description_fallback:
  assumes "read_and_process_csv L p w = (Some df, w')" and "r \<in> set df"
  shows "description r =
           (case partner_elnevezese (source r) of
              Some n \<Rightarrow> Some n
            | None \<Rightarrow> (case kozlemeny (source r) of
                         Some m \<Rightarrow> Some m
                       | None \<Rightarrow> Some ''No Description'')) \<and>
         description r \<noteq> None \<and>
         (partner_elnevezese (source r) \<noteq> Some [] \<and> kozlemeny (source r) \<noteq> Some [] \<longrightarrow>
            description r \<noteq> Some [])"
proof -
  from read_and_process_csv_Some [OF assms(1)] obtain tbl w1 where
    "process_frame L tbl w1 = (Some df, w')" by blast
  from process_frame_Some [OF this] obtain s where df: "df = with_balance s" by blast
  from assms(2) obtain i where i: "i < length df" and r: "r = df ! i"
    by (auto simp: in_set_conv_nth)
  from i have "i < length s" by (simp add: df length_with_balance)
  then have "source r = snd (s ! i)" and
    "description r = fillna (partner_elnevezese (snd (s ! i)))
                       (fillna (kozlemeny (snd (s ! i))) (Some ''No Description''))"
    by (simp_all add: r df with_balance_nth)
  then show ?thesis
    by (simp add: fillna_def split: option.splits)
qed

text \<open>The theorem of C6 at the example export.\<close>

theorem description_fallback_witness:
  "read_and_process_csv (example_libs example_table stable_sort) ''export.csv'' example_world =
     (Some example_frame, say PrintFirstColumn (say PrintColumns loaded_world)) \<and>
   example_frame ! 0 \<in> set example_frame \<and>
   example_frame ! 1 \<in> set example_frame \<and>
   example_frame ! 2 \<in> set example_frame \<and>
   description (example_frame ! 0) = Some ''Employer'' \<and>
   description (example_frame ! 1) = Some ''groceries'' \<and>
   description (example_frame ! 2) = Some ''No Description''"
proof -
  have h2: "read_and_process_csv (example_libs example_table stable_sort) ''export.csv'' example_world =
     (Some example_frame, say PrintFirstColumn (say PrintColumns loaded_world))"
    by (rule example_run)
  have m: "example_frame ! 0 \<in> set example_frame" "example_frame ! 1 \<in> set example_frame"
    "example_frame ! 2 \<in> set example_frame"
    by (simp_all add: example_frame_def)
  have 0: "description (example_frame ! 0) = Some ''Employer''"
    using description_fallback [OF h2 m(1)]
    by (simp add: example_frame_def row_salary_def)
  have 1: "description (example_frame ! 1) = Some ''groceries''"
    using description_fallback [OF h2 m(2)]
    by (simp add: example_frame_def row_shop_def)
  have 2: "description (example_frame ! 2) = Some ''No Description''"
    using description_fallback [OF h2 m(3)]
    by (simp add: example_frame_def row_interest_def)
  from h2 m 0 1 2 show ?thesis by blast
qed

subsection \<open>C7: the header sanitizer\<close>

text \<open>
  C7. On an export of two lines, "a b<TAB>c" and "1<TAB>2", the sanitizer removes the
  space of the header and also the newline that ends it: the copy holds the single line
  "ab<TAB>c1<TAB>2", in which the second line of the input has become part of the header.
\<close>

theorem header_line_swallows_next_line:
  "readlines export_text = [[97, 32, 98, 9, 99, 10], [49, 9, 50, 10]] \<and>
   fix_header_line ''export.csv'' example_world = Inr (''export.csv_fixed.csv'', loaded_world) \<and>
   files loaded_world ''export.csv_fixed.csv'' = Some [97, 98, 9, 99, 49, 9, 50, 10] \<and>
   readlines [97, 98, 9, 99, 49, 9, 50, 10] = [[97, 98, 9, 99, 49, 9, 50, 10]]"
  by (simp add: fix_header_line_def example_world_def loaded_world_def export_text_def
        writelines_def tab_def newline_def isspace_def Let_def)

subsection \<open>C8: the exit status\<close>

text \<open>
  C8. On an export whose only record is a merge record the load succeeds, with a frame
  of no line: the program prints that it processed 0 transactions, raises at line 253,
  where the earliest date of the empty frame is NaT, and exits with status 1 without
  writing the chart.
\<close>

theorem empty_frame_exits_with_1:
  "read_and_process_csv (example_libs merge_only_table stable_sort) ''export.csv'' example_world =
     (Some [], say PrintFirstColumn (say PrintColumns loaded_world)) \<and>
   main (example_libs merge_only_table stable_sort) [''summary.py'', ''export.csv'']
     example_world =
     (1, say (Traceback ValueError) (say (Processed 0)
           (say PrintFirstColumn (say PrintColumns loaded_world)))) \<and>
   files (snd (main (example_libs merge_only_table stable_sort)
     [''summary.py'', ''export.csv''] example_world)) output_file = None"
proof -
  have rp: "read_and_process_csv (example_libs merge_only_table stable_sort) ''export.csv''
      example_world = (Some [], say PrintFirstColumn (say PrintColumns loaded_world))"
    by (simp add: read_and_process_csv_loaded [OF example_load] merge_only_process)
  have "files loaded_world output_file = None"
    by (simp add: loaded_world_def output_file_def)
  with rp show ?thesis
    by (simp add: main_def dated_def files_say)
qed

subsection \<open>C9: the currency is checked first\<close>

text \<open>
  C9. A record of the table whose currency is not HUF makes the load fail and is
  reported, whatever its transaction type and whether or not its date can be parsed:
  the outcome does not depend on the date parser at all.
\<close>

theorem currency_checked_first:
  assumes "load_table L p w = (Inr tbl, w1)"
    and "r \<in> set (dropna_all tbl)" and "osszeg_devizaneme r \<noteq> ''HUF''"
  shows "fst (read_and_process_csv L p w) = None \<and>
         report r \<in> set (console (snd (read_and_process_csv L p w))) \<and>
         (\<forall>f. read_and_process_csv (L\<lparr>to_datetime := f\<rparr>) p w = read_and_process_csv L p w)"
proof -
  from assms(2,3) have r: "r \<in> set (non_huf_rows tbl)"
    by (simp add: non_huf_rows_def)
  then have ne: "non_huf_rows tbl \<noteq> []" by auto
  have 1: "read_and_process_csv L' p w =
           (None, w1\<lparr>console := console w1 @
              [PrintColumns, PrintFirstColumn, NonHufFound (length (non_huf_rows tbl))] @
              map report (non_huf_rows tbl)\<rparr>)"
    if "load_table L' p w = (Inr tbl, w1)" for L'
    by (simp only: read_and_process_csv_loaded [OF that] process_frame_non_huf [OF ne])
  have "read_and_process_csv (L\<lparr>to_datetime := f\<rparr>) p w = read_and_process_csv L p w" for f
    using 1 [of L] 1 [of "L\<lparr>to_datetime := f\<rparr>"] assms(1)
    by (simp add: load_table_to_datetime)
  with 1 [OF assms(1)] r show ?thesis by simp
qed

text \<open>The theorem of C9 at the example export.\<close>

theorem currency_checked_first_witness:
  "load_table (example_libs euro_table stable_sort) ''export.csv'' example_world = (Inr euro_table, loaded_world) \<and>
   row_euro_merge \<in> set (dropna_all euro_table) \<and>
   osszeg_devizaneme row_euro_merge \<noteq> ''HUF'' \<and>
   tipus row_euro_merge = artifact \<and>
   map_option (to_datetime (example_libs euro_table stable_sort))
     (konyveles_datuma row_euro_merge) = Some (Inl ValueError) \<and>
   fst (read_and_process_csv (example_libs euro_table stable_sort) ''export.csv'' example_world) = None \<and>
   report row_euro_merge \<in> set (console (snd (read_and_process_csv (example_libs euro_table stable_sort) ''export.csv'' example_world)))"
proof -
  have h1: "load_table (example_libs euro_table stable_sort) ''export.csv'' example_world = (Inr euro_table, loaded_world)"
    by (rule example_load)
  have h2: "row_euro_merge \<in> set (dropna_all euro_table)"
    by (simp add: euro_table_def)
  have h3: "osszeg_devizaneme row_euro_merge \<noteq> ''HUF''"
    by (simp add: row_euro_merge_def)
  have h4: "tipus row_euro_merge = artifact \<and>
            map_option (to_datetime (example_libs euro_table stable_sort))
              (konyveles_datuma row_euro_merge) = Some (Inl ValueError)"
    by (simp add: row_euro_merge_def example_libs_def strptime_Ymd_yesterday)
  from currency_checked_first [OF h1 h2 h3] h1 h2 h3 h4 show ?thesis
    by blast
qed

subsection \<open>C10: the sanitized copy\<close>




end
